theory Spec2Isabelle
  imports Main
begin

section \<open>Data model\<close>

text \<open>
  A candle is one row of the data frame: the \<open>timestamp\<close> index and the five value
  columns. The program never computes with the value columns (they are copied from the
  provider's reply into the table), so their type is left open as \<open>'v\<close>; equality of
  rows is identity of their fields. A \<open>timestamp\<close> is a naive pandas Timestamp, held as
  pandas holds it: a count of nanoseconds since 1970-01-01 00:00:00.
\<close>

record 'v candle =
  timestamp :: int
  "open" :: 'v
  high :: 'v
  low :: 'v
  close :: 'v
  volume :: 'v

text \<open>A data frame indexed by \<open>timestamp\<close>: its rows, in row order.\<close>

type_synonym 'v frame = "'v candle list"

definition index :: "'v frame \<Rightarrow> int list" where
  "index df = map timestamp df"

text \<open>\<open>LIMIT = 100\<close>\<close>

definition LIMIT :: nat where
  "LIMIT = 100"

text \<open>
  The lines that \<open>log\<close> prints, one constructor for each call of \<open>log\<close> in the source
  (the wording, the clock prefix and the date ranges of the messages are left out).
\<close>

datatype provider = Bybit | OKX | CryptoCompare

datatype log_line =
    CsvLatest
  | CsvNotFound
  | CsvReadError
  | Trying provider
  | ApiError provider
  | NoData provider
  | Fetched provider nat
  | DateRange provider
  | Failed provider
  | Fetching nat
  | FetchedFrom provider
  | AllApisFailed
  | Banner
  | Starting
  | CannotProceed
  | FetchFailed
  | Updated
  | TotalRows nat
  | Earliest
  | Latest
  | NewRows int
  | Refreshed

section \<open>Timestamps\<close>

text \<open>
  \<open>pd.to_datetime(x, unit=.., utc=True)\<close>: the epoch count \<open>x\<close> in the given unit
  becomes an instant, a count of nanoseconds since the epoch in UTC. Pandas holds the
  count in 64 bits and raises \<open>OutOfBoundsDatetime\<close> when it does not fit; \<open>None\<close>
  is the raise.
\<close>

datatype unit = Ms | S

fun ns_per :: "unit \<Rightarrow> int" where
  "ns_per Ms = 1000000"
| "ns_per S = 1000000000"

definition in_bounds :: "int \<Rightarrow> bool" where
  "in_bounds ns \<longleftrightarrow> - (2 ^ 63) < ns \<and> ns < 2 ^ 63"

definition to_datetime :: "int \<Rightarrow> unit \<Rightarrow> int option" where
  "to_datetime x u = (let ns = x * ns_per u in if in_bounds ns then Some ns else None)"

text \<open>
  The zone \<open>'Asia/Singapore'\<close> that the adapters name is a table of the tz database,
  which is not part of the repository. Its rules, as pandas 2 applies them: the offset
  from UTC, in seconds, in force at an instant given in seconds since the epoch. The
  last change is the one of 1981-12-31 16:00:00 UTC, to UTC+8. (Before June 1905 the
  zone is at local mean time, 6:55:25, which pandas 2 rounds to 6:55; pandas 3 keeps
  the seconds.)
\<close>

definition asia_singapore_utcoffset :: "int \<Rightarrow> int" where
  "asia_singapore_utcoffset s =
     (if s < - 2038200925 then 24900
      else if s < - 1167634800 then 25200
      else if s < - 894180000 then 26400
      else if s < - 879665400 then 27000
      else if s < - 767005200 then 32400
      else if s < 378662400 then 27000
      else 28800)"

text \<open>A count as 64 bits hold it: a sum that leaves the range wraps around.\<close>

definition wrap64 :: "int \<Rightarrow> int" where
  "wrap64 n = (n + 2 ^ 63) mod 2 ^ 64 - 2 ^ 63"

text \<open>
  \<open>.dt.tz_convert('Asia/Singapore').dt.tz_localize(None)\<close>: the wall-clock time of the
  zone at the instant, with the offset dropped. Nothing is raised here: the
  wall-clock count is the instant plus the offset in 64 bits, so that in the last
  hours of the range (year 2262) pandas 2 wraps around to the year 1677. (Pandas 3
  keeps the right time there.)
\<close>

definition tz_convert_localize :: "int \<Rightarrow> int" where
  "tz_convert_localize ns =
     wrap64 (ns + asia_singapore_utcoffset (ns div 1000000000) * 1000000000)"

text \<open>The two steps together, as every adapter applies them to a provider timestamp.\<close>

definition local_timestamp :: "int \<Rightarrow> unit \<Rightarrow> int option" where
  "local_timestamp x u =
     (case to_datetime x u of None \<Rightarrow> None | Some ns \<Rightarrow> Some (tz_convert_localize ns))"



section \<open>Provider adapters\<close>

text \<open>
  One record of a provider's reply, as the adapter reads it: the provider's timestamp
  (\<open>open_time\<close> after \<open>astype(int)\<close>, or \<open>time\<close>) and the five value fields after
  \<open>pd.to_numeric\<close>. The fields that the adapter drops (turnover, quote volume,
  confirmation flag) are never read and are left out.
\<close>

type_synonym 'v kline = "int \<times> 'v \<times> 'v \<times> 'v \<times> 'v \<times> 'v"

text \<open>
  What one GET brings back. \<open>Raises\<close> stands for every exception between the request
  and the decoded records (network error, timeout, HTTP status, a body that is not the
  expected JSON, a field that \<open>astype(int)\<close> rejects); otherwise the reply carries the
  provider's status field and its list of records (empty when the field is missing).
  A status field that is missing counts as one more value that is not the expected
  one.
\<close>

datatype ('c, 'v) response = Raises | Json 'c "'v kline list"

fun to_candle :: "unit \<Rightarrow> 'v kline \<Rightarrow> 'v candle option" where
  "to_candle u (t, op, hi, lo, cl, vol) =
     (case local_timestamp t u of
        None \<Rightarrow> None
      | Some ts \<Rightarrow>
          Some \<lparr>timestamp = ts, open = op, high = hi, low = lo, close = cl, volume = vol\<rparr>)"

text \<open>The frame of a reply; \<open>None\<close> when \<open>to_datetime\<close> raises on some timestamp.\<close>

definition to_frame :: "unit \<Rightarrow> 'v kline list \<Rightarrow> 'v frame option" where
  "to_frame u klines = those (map (to_candle u) klines)"

text \<open>
  \<open>df.sort_values('timestamp')\<close> followed by \<open>set_index\<close>, and \<open>df.sort_index()\<close>: the
  rows in ascending order of \<open>timestamp\<close>. In \<open>update_csv\<close> the timestamps are
  distinct when the rows are sorted, so the order is determined; where a provider
  repeats a timestamp, rows with the same timestamp are left here in the order they
  came.
\<close>

definition sort_index :: "'v frame \<Rightarrow> 'v frame" where
  "sort_index df = sort_key timestamp df"

type_synonym 'v fetched = "log_line list \<times> 'v frame option"

definition fetch_from_bybit :: "(nat \<Rightarrow> (int, 'v) response) \<Rightarrow> nat \<Rightarrow> 'v fetched" where
  "fetch_from_bybit get limit =
     (case get limit of
        Raises \<Rightarrow> ([Trying Bybit, Failed Bybit], None)
      | Json retCode klines \<Rightarrow>
          if retCode \<noteq> 0 then ([Trying Bybit, ApiError Bybit], None)
          else if klines = [] then ([Trying Bybit, NoData Bybit], None)
          else (case to_frame Ms klines of
                  None \<Rightarrow> ([Trying Bybit, Failed Bybit], None)
                | Some df \<Rightarrow>
                    ([Trying Bybit, Fetched Bybit (length df), DateRange Bybit],
                     Some (sort_index df))))"

definition fetch_from_cryptocompare ::
    "(nat \<Rightarrow> (string, 'v) response) \<Rightarrow> nat \<Rightarrow> 'v fetched" where
  "fetch_from_cryptocompare get limit =
     (case get limit of
        Raises \<Rightarrow> ([Trying CryptoCompare, Failed CryptoCompare], None)
      | Json Response klines \<Rightarrow>
          if Response \<noteq> ''Success'' then ([Trying CryptoCompare, ApiError CryptoCompare], None)
          else if klines = [] then ([Trying CryptoCompare, NoData CryptoCompare], None)
          else (case to_frame S klines of
                  None \<Rightarrow> ([Trying CryptoCompare, Failed CryptoCompare], None)
                | Some df \<Rightarrow>
                    ([Trying CryptoCompare, Fetched CryptoCompare (length df),
                      DateRange CryptoCompare],
                     Some (sort_index df))))"

definition fetch_from_okx :: "(nat \<Rightarrow> (string, 'v) response) \<Rightarrow> nat \<Rightarrow> 'v fetched" where
  "fetch_from_okx get limit =
     (case get limit of
        Raises \<Rightarrow> ([Trying OKX, Failed OKX], None)
      | Json code klines \<Rightarrow>
          if code \<noteq> ''0'' then ([Trying OKX, ApiError OKX], None)
          else if klines = [] then ([Trying OKX, NoData OKX], None)
          else (case to_frame Ms klines of
                  None \<Rightarrow> ([Trying OKX, Failed OKX], None)
                | Some df \<Rightarrow>
                    ([Trying OKX, Fetched OKX (length df), DateRange OKX],
                     Some (sort_index df))))"

section \<open>Fallback fetcher\<close>

text \<open>The three endpoints, as they answer during one run.\<close>

record 'v network =
  bybit_api :: "nat \<Rightarrow> (int, 'v) response"
  okx_api :: "nat \<Rightarrow> (string, 'v) response"
  cryptocompare_api :: "nat \<Rightarrow> (string, 'v) response"

definition apis :: "'v network \<Rightarrow> (provider \<times> (nat \<Rightarrow> 'v fetched)) list" where
  "apis net =
     [(Bybit, fetch_from_bybit (bybit_api net)),
      (OKX, fetch_from_okx (okx_api net)),
      (CryptoCompare, fetch_from_cryptocompare (cryptocompare_api net))]"

text \<open>\<open>df is not None and len(df) > 0\<close>\<close>

fun usable :: "'v frame option \<Rightarrow> bool" where
  "usable None = False"
| "usable (Some df) = (length df > 0)"

text \<open>
  The \<open>for name, fetch_func in apis\<close> loop: an adapter is called only when the loop
  reaches it, and its log lines are printed then.
\<close>

fun try_apis :: "(provider \<times> (nat \<Rightarrow> 'v fetched)) list \<Rightarrow> nat \<Rightarrow> 'v fetched" where
  "try_apis [] limit = ([AllApisFailed], None)"
| "try_apis ((name, fetch_func) # rest) limit =
     (case fetch_func limit of
        (printed, df) \<Rightarrow>
          if usable df then (printed @ [FetchedFrom name], df)
          else (case try_apis rest limit of
                  (printed', r) \<Rightarrow> (printed @ printed', r)))"

definition fetch_recent_klines :: "'v network \<Rightarrow> nat \<Rightarrow> 'v fetched" where
  "fetch_recent_klines net limit =
     (case try_apis (apis net) limit of (printed, r) \<Rightarrow> (Fetching limit # printed, r))"

section \<open>Store\<close>

text \<open>
  The CSV file as a run finds it, by what reading it does. It is absent; or reading
  it raises (\<open>read_csv\<close> rejects it, or it has no \<open>timestamp\<close> column); or
  \<open>read_csv\<close> accepts it but its \<open>timestamp\<close> cells are not dates, so that the
  column is left as text; or it holds a table, which is read with \<open>timestamp\<close>
  parsed as dates and, in \<open>update_csv\<close>, set as the index.
\<close>

datatype 'v csv_file = Absent | Unreadable | Undated | Csv "'v frame"

text \<open>The data frame that a successful read returns.\<close>

datatype 'v loaded = Parsed "'v frame" | Unparsed

text \<open>
  \<open>df['timestamp'].max()\<close>: the greatest timestamp, \<open>NaT\<close> for a table without rows,
  the greatest text when the cells are not dates.
\<close>

datatype stamp = NaT | Stamp int | Not_a_date

definition max_timestamp :: "'v frame \<Rightarrow> stamp" where
  "max_timestamp df = (if df = [] then NaT else Stamp (Max (set (index df))))"

text \<open>
  The lines printed and the pair returned, \<open>(latest_timestamp, df)\<close> or
  \<open>(None, None)\<close>.
\<close>

definition get_latest_timestamp_from_csv ::
    "'v csv_file \<Rightarrow> log_line list \<times> stamp option \<times> 'v loaded option" where
  "get_latest_timestamp_from_csv csv_file =
     (case csv_file of
        Csv df \<Rightarrow> ([CsvLatest], Some (max_timestamp df), Some (Parsed df))
      | Undated \<Rightarrow> ([CsvLatest], Some Not_a_date, Some Unparsed)
      | Absent \<Rightarrow> ([CsvNotFound], None, None)
      | Unreadable \<Rightarrow> ([CsvReadError], None, None))"

text \<open>
  The file as a run leaves it: a whole file (the one found, untouched, or the complete
  text of the table written), or a file that holds only the first \<open>k\<close> characters of
  the text of a table, fewer than all of them. A file cut at \<open>0\<close> is empty; a cut
  can fall anywhere, also inside the header or inside a row.
\<close>

datatype 'v disk = File "'v csv_file" | Cut nat "'v frame"

text \<open>
  \<open>df.to_csv(CSV_FILE)\<close> opens the file for writing, which empties it, and then writes
  the text of the table from its start: the header, then the rows in order. A write
  that runs to its end (\<open>None\<close>) leaves the complete text. A write that is stopped part
  way (the process is killed, or the write raises) when \<open>k\<close> characters have reached
  the file leaves those characters and nothing of what the file held before, and
  \<open>update_csv\<close> does not return. The text itself, pandas' rendering of the values, is
  not modelled: \<open>Some k\<close> stands for a stop before the end of the text, whatever its
  length. A reader that opens the file during a write sees such a cut file too.
\<close>

definition to_csv :: "nat option \<Rightarrow> 'v frame \<Rightarrow> 'v disk \<times> bool" where
  "to_csv stop df =
     (case stop of
        None \<Rightarrow> (File (Csv df), True)
      | Some k \<Rightarrow> (Cut k df, False))"

section \<open>Reconciler and orchestrator\<close>

text \<open>\<open>pd.concat([df_existing, df_new])\<close>\<close>

definition concat_frames :: "'v frame \<Rightarrow> 'v frame \<Rightarrow> 'v frame" where
  "concat_frames a b = a @ b"

text \<open>
  \<open>index.duplicated(keep='last')\<close>: an entry is marked when the same value occurs again
  further down.
\<close>

fun duplicated_last :: "int list \<Rightarrow> bool list" where
  "duplicated_last [] = []"
| "duplicated_last (t # ts) = (t \<in> set ts) # duplicated_last ts"

text \<open>\<open>df[bs]\<close>: the rows at which the boolean array is true.\<close>

definition boolean_select :: "'a list \<Rightarrow> bool list \<Rightarrow> 'a list" where
  "boolean_select rows bs = map fst (filter snd (zip rows bs))"

text \<open>\<open>df[~df.index.duplicated(keep='last')]\<close>\<close>

definition drop_duplicated :: "'v frame \<Rightarrow> 'v frame" where
  "drop_duplicated df = boolean_select df (map Not (duplicated_last (index df)))"

text \<open>
  The three statements of \<open>update_csv\<close> that build \<open>df_combined\<close>: concatenate, drop
  the duplicates keeping the last, sort by the index.
\<close>

definition df_combined :: "'v frame \<Rightarrow> 'v frame \<Rightarrow> 'v frame" where
  "df_combined df_existing df_new =
     sort_index (drop_duplicated (concat_frames df_existing df_new))"

text \<open>\<open>new_rows = len(df_combined) - len(df_existing)\<close>\<close>

definition new_rows :: "'v frame \<Rightarrow> 'v frame \<Rightarrow> int" where
  "new_rows df_existing df_new =
     int (length (df_combined df_existing df_new)) - int (length df_existing)"

text \<open>
  What one call of \<open>update_csv\<close> leaves: the lines printed, the file, and the value
  returned (\<open>None\<close> when the call does not return: the write was stopped, or an
  exception leaves \<open>update_csv\<close>).
\<close>

record 'v run =
  logged :: "log_line list"
  stored :: "'v disk"
  returned :: "bool option"

text \<open>
  When the table was read with its \<open>timestamp\<close> column left as text, the index of
  the concatenation mixes text and timestamps, and \<open>sort_index\<close> raises a
  \<open>TypeError\<close>, before anything is written.
\<close>

definition update_csv :: "'v network \<Rightarrow> nat option \<Rightarrow> 'v csv_file \<Rightarrow> 'v run" where
  "update_csv net stop csv_file =
     (case get_latest_timestamp_from_csv csv_file of
        (p0, latest_csv_time, None) \<Rightarrow>
          \<lparr>logged = [Banner, Starting, Banner] @ p0 @ [CannotProceed],
           stored = File csv_file, returned = Some False\<rparr>
      | (p0, latest_csv_time, Some existing) \<Rightarrow>
          (case fetch_recent_klines net LIMIT of
             (p1, df_new) \<Rightarrow>
               if \<not> usable df_new then
                 \<lparr>logged = [Banner, Starting, Banner] @ p0 @ p1 @ [FetchFailed],
                  stored = File csv_file, returned = Some False\<rparr>
               else
                 (case existing of
                    Unparsed \<Rightarrow>
                      \<lparr>logged = [Banner, Starting, Banner] @ p0 @ p1,
                       stored = File csv_file, returned = None\<rparr>
                  | Parsed df_existing \<Rightarrow>
                      (let combined = df_combined df_existing (the df_new);
                           n = new_rows df_existing (the df_new);
                           (written, finished) = to_csv stop combined
                       in if \<not> finished then
                            \<lparr>logged = [Banner, Starting, Banner] @ p0 @ p1,
                             stored = written, returned = None\<rparr>
                          else if n > 0 then
                            \<lparr>logged = [Banner, Starting, Banner] @ p0 @ p1 @
                               [Updated, TotalRows (length combined), Earliest, Latest,
                                NewRows n],
                             stored = written, returned = Some True\<rparr>
                          else
                            \<lparr>logged = [Banner, Starting, Banner] @ p0 @ p1 @
                               [Refreshed, Latest],
                             stored = written, returned = Some True\<rparr>))))"

text \<open>The row of a frame at a timestamp: the last one, when there are several.\<close>

definition row_at :: "int \<Rightarrow> 'v frame \<Rightarrow> 'v candle option" where
  "row_at t df = find (\<lambda>r. timestamp r = t) (rev df)"

text \<open>The invariant of the table: timestamps strictly increasing.\<close>

definition table_invariant :: "'v frame \<Rightarrow> bool" where
  "table_invariant df \<longleftrightarrow> sorted_wrt (<) (index df)"

text \<open>A candle whose five values are the same, for the examples.\<close>

definition flat :: "int \<Rightarrow> 'v \<Rightarrow> 'v candle" where
  "flat t v = \<lparr>timestamp = t, open = v, high = v, low = v, close = v, volume = v\<rparr>"

text \<open>A provider record whose five values are the same, for the examples.\<close>

definition flat_kline :: "int \<Rightarrow> 'v \<Rightarrow> 'v kline" where
  "flat_kline t v = (t, v, v, v, v, v)"

text \<open>A network whose three endpoints answer the same whatever the limit.\<close>

definition answering ::
    "(int, 'v) response \<Rightarrow> (string, 'v) response \<Rightarrow> (string, 'v) response \<Rightarrow> 'v network" where
  "answering b k c = \<lparr>bybit_api = \<lambda>_. b, okx_api = \<lambda>_. k, cryptocompare_api = \<lambda>_. c\<rparr>"

section \<open>Properties of the reconciler\<close>

lemma drop_duplicated_Nil: "drop_duplicated [] = []"
  by (simp add: drop_duplicated_def boolean_select_def index_def)

lemma drop_duplicated_Cons:
  "drop_duplicated (r # rs) =
     (if timestamp r \<in> set (index rs) then drop_duplicated rs else r # drop_duplicated rs)"
  by (simp add: drop_duplicated_def boolean_select_def index_def)

lemma row_at_Nil: "row_at t [] = None"
  by (simp add: row_at_def)

lemma find_app:
  "find P (xs @ ys) = (case find P xs of None \<Rightarrow> find P ys | Some x \<Rightarrow> Some x)"
  by (induction xs) auto

lemma row_at_append:
  "row_at t (xs @ ys) = (case row_at t ys of Some r \<Rightarrow> Some r | None \<Rightarrow> row_at t xs)"
  by (simp add: row_at_def find_app split: option.splits)

lemma row_at_Cons:
  "row_at t (r # rs) =
     (case row_at t rs of Some x \<Rightarrow> Some x | None \<Rightarrow> if timestamp r = t then Some r else None)"
  using row_at_append [of t "[r]" rs] by (simp add: row_at_def split: option.splits)

lemma row_at_None: "row_at t rs = None \<longleftrightarrow> t \<notin> set (index rs)"
  by (auto simp: row_at_def index_def find_None_iff)

lemma find_Some_in: "find P xs = Some x \<Longrightarrow> x \<in> set xs \<and> P x"
  by (induction xs) (auto split: if_splits)

lemma row_at_Some: "row_at t rs = Some r \<Longrightarrow> r \<in> set rs \<and> timestamp r = t"
  using find_Some_in [of "\<lambda>r. timestamp r = t" "rev rs" r] by (simp add: row_at_def)

lemma index_drop_duplicated: "set (index (drop_duplicated rs)) = set (index rs)"
  by (induction rs) (auto simp: drop_duplicated_Nil drop_duplicated_Cons index_def)

lemma distinct_drop_duplicated: "distinct (index (drop_duplicated rs))"
proof (induction rs)
  case Nil
  then show ?case by (simp add: drop_duplicated_Nil index_def)
next
  case (Cons r rs)
  have "timestamp r \<notin> set (index rs) \<Longrightarrow> timestamp r \<notin> set (index (drop_duplicated rs))"
    by (simp add: index_drop_duplicated)
  with Cons show ?case
    by (simp add: drop_duplicated_Cons) (simp add: index_def)
qed

lemma in_drop_duplicated:
  "r \<in> set (drop_duplicated rs) \<longleftrightarrow> row_at (timestamp r) rs = Some r"
proof (induction rs)
  case Nil
  then show ?case by (simp add: drop_duplicated_Nil row_at_Nil)
next
  case (Cons a rs)
  show ?case
  proof (cases "timestamp a \<in> set (index rs)")
    case True
    then have "row_at (timestamp a) rs \<noteq> None" by (simp add: row_at_None)
    with True Cons show ?thesis
      by (auto simp: drop_duplicated_Cons row_at_Cons split: option.splits)
  next
    case False
    then have n: "row_at (timestamp a) rs = None" by (simp add: row_at_None)
    show ?thesis
    proof (cases "timestamp r = timestamp a")
      case True
      with n False Cons show ?thesis
        by (auto simp: drop_duplicated_Cons row_at_Cons dest: row_at_Some)
    next
      case False
      with \<open>timestamp a \<notin> set (index rs)\<close> Cons show ?thesis
        by (auto simp: drop_duplicated_Cons row_at_Cons split: option.splits)
    qed
  qed
qed

lemma row_at_distinct:
  "distinct (index rs) \<Longrightarrow> row_at t rs = Some r \<longleftrightarrow> r \<in> set rs \<and> timestamp r = t"
proof (induction rs)
  case Nil
  then show ?case by (simp add: row_at_Nil)
next
  case (Cons a rs)
  then have d: "distinct (index rs)" and na: "timestamp a \<notin> set (index rs)"
    by (simp_all add: index_def)
  from na have n: "row_at (timestamp a) rs = None" by (simp add: row_at_None)
  show ?case
  proof (cases "t = timestamp a")
    case True
    have "r \<in> set rs \<Longrightarrow> timestamp r \<in> set (index rs)" for r
      by (simp add: index_def)
    with na have "r \<in> set rs \<Longrightarrow> timestamp r \<noteq> timestamp a" for r
      by metis
    with True n show ?thesis by (auto simp: row_at_Cons)
  next
    case False
    with Cons.IH [OF d] show ?thesis
      by (auto simp: row_at_Cons split: option.splits dest: row_at_Some)
  qed
qed

lemma index_sort_index: "set (index (sort_index df)) = set (index df)"
  by (simp add: index_def sort_index_def)

lemma sorted_sort_index: "sorted (index (sort_index df))"
  by (simp add: index_def sort_index_def)

lemma distinct_sort_index: "distinct (index (sort_index df)) = distinct (index df)"
  by (simp add: index_def sort_index_def distinct_map)

lemma set_sort_index: "set (sort_index df) = set df"
  by (simp add: sort_index_def)

lemma distinct_index_df_combined: "distinct (index (df_combined a b))"
  by (simp add: df_combined_def distinct_sort_index distinct_drop_duplicated)

lemma sorted_index_df_combined: "sorted (index (df_combined a b))"
  by (simp add: df_combined_def sorted_sort_index)

lemma in_df_combined:
  "r \<in> set (df_combined a b) \<longleftrightarrow> row_at (timestamp r) (a @ b) = Some r"
  by (simp add: df_combined_def set_sort_index in_drop_duplicated concat_frames_def)

lemma index_df_combined: "set (index (df_combined a b)) = set (index a) \<union> set (index b)"
  by (simp add: df_combined_def index_sort_index index_drop_duplicated concat_frames_def)
     (simp add: index_def)

lemma frame_unique:
  assumes "sorted (index xs)" "distinct (index xs)" "sorted (index ys)" "distinct (index ys)"
    and "set xs = set ys"
  shows "xs = ys"
proof -
  have "set (index xs) = set (index ys)"
    using assms(5) by (simp add: index_def)
  with assms have m: "map timestamp xs = map timestamp ys"
    unfolding index_def by (intro sorted_distinct_set_unique) simp_all
  have "inj_on timestamp (set xs \<union> set ys)"
    using assms(2,5) by (simp add: index_def distinct_map)
  then show ?thesis
    using m by (simp add: inj_on_map_eq_map)
qed

lemma drop_duplicated_distinct: "distinct (index df) \<Longrightarrow> drop_duplicated df = df"
  by (induction df) (auto simp: drop_duplicated_Nil drop_duplicated_Cons index_def)

lemma filter_distinct_index:
  "distinct (index df) \<Longrightarrow> r \<in> set df \<Longrightarrow> filter (\<lambda>c. timestamp c = timestamp r) df = [r]"
proof (induction df)
  case Nil
  then show ?case by simp
next
  case (Cons a df)
  then have d: "distinct (index df)" and na: "timestamp a \<notin> set (index df)"
    by (simp_all add: index_def)
  have out: "c \<in> set df \<Longrightarrow> timestamp c \<noteq> timestamp a" for c
    using na by (metis image_eqI index_def set_map)
  show ?case
  proof (cases "r = a")
    case True
    have "filter (\<lambda>c. timestamp c = timestamp a) df = []"
      using out by (simp add: filter_empty_conv)
    with True show ?thesis by simp
  next
    case False
    with Cons.prems have "r \<in> set df" by simp
    with Cons.IH [OF d] out [of r] show ?thesis by simp
  qed
qed

lemma timestamp_flat: "timestamp (flat t v) = t"
  by (simp add: flat_def)

lemma flat_eq: "flat t v = flat t' v' \<longleftrightarrow> t = t' \<and> v = v'"
  by (auto simp: flat_def)

text \<open>
  C1 (keep-last merge): for every existing table and every incoming sequence, when a
  timestamp is present in both, the merged table has exactly one row at that
  timestamp, and it is the incoming row (the last one of the incoming sequence at that
  timestamp, as the later occurrence in the concatenation wins); an existing row at
  that timestamp that differs from it is not in the merged table.
\<close>

theorem keep_last:
  assumes "t \<in> set (index df_existing)" and "t \<in> set (index df_new)"
  shows "\<exists>r. row_at t df_new = Some r
           \<and> filter (\<lambda>c. timestamp c = t) (df_combined df_existing df_new) = [r]
           \<and> (\<forall>c \<in> set df_existing. timestamp c = t \<and> c \<noteq> r
                  \<longrightarrow> c \<notin> set (df_combined df_existing df_new))"
proof -
  from assms(2) obtain r where r: "row_at t df_new = Some r"
    using row_at_None [of t df_new] by (cases "row_at t df_new") auto
  then have tr: "timestamp r = t" by (simp add: row_at_Some)
  from r have "row_at t (df_existing @ df_new) = Some r"
    by (simp add: row_at_append)
  with tr have m: "r \<in> set (df_combined df_existing df_new)"
    by (simp add: in_df_combined)
  have f: "filter (\<lambda>c. timestamp c = t) (df_combined df_existing df_new) = [r]"
    using filter_distinct_index [OF distinct_index_df_combined m] tr by simp
  have "c \<notin> set (df_combined df_existing df_new)" if "timestamp c = t" "c \<noteq> r" for c
  proof
    assume "c \<in> set (df_combined df_existing df_new)"
    with that(1) have "c \<in> set (filter (\<lambda>c. timestamp c = t) (df_combined df_existing df_new))"
      by simp
    with f that(2) show False by simp
  qed
  with r f show ?thesis by blast
qed

theorem keep_last_witness:
  "2 \<in> set (index [flat 1 (10::int), flat 2 20])
   \<and> 2 \<in> set (index [flat 2 (21::int), flat 3 30])
   \<and> row_at 2 [flat 2 (21::int), flat 3 30] = Some (flat 2 21)
   \<and> filter (\<lambda>c. timestamp c = 2)
        (df_combined [flat 1 (10::int), flat 2 20] [flat 2 21, flat 3 30]) = [flat 2 21]
   \<and> flat 2 20 \<notin> set (df_combined [flat 1 (10::int), flat 2 20] [flat 2 21, flat 3 30])"
proof -
  let ?e = "[flat 1 (10::int), flat 2 20]" and ?n = "[flat 2 (21::int), flat 3 30]"
  have e: "2 \<in> set (index ?e)" and n: "2 \<in> set (index ?n)"
    by (simp_all add: index_def timestamp_flat)
  have r: "row_at 2 ?n = Some (flat 2 21)"
    by (simp add: row_at_def timestamp_flat)
  from keep_last [OF e n] r
  have "filter (\<lambda>c. timestamp c = 2) (df_combined ?e ?n) = [flat 2 21]"
    and "\<forall>c \<in> set ?e. timestamp c = 2 \<and> c \<noteq> flat 2 21 \<longrightarrow> c \<notin> set (df_combined ?e ?n)"
    by auto
  with e n r show ?thesis
    by (simp add: timestamp_flat flat_eq)
qed

text \<open>
  C2 (idempotence): merging the same incoming sequence into the merged table once
  more gives the merged table again.
\<close>

theorem merge_idempotent:
  "df_combined (df_combined df_existing df_new) df_new = df_combined df_existing df_new"
proof (rule frame_unique)
  let ?m = "df_combined df_existing df_new"
  show "set (df_combined ?m df_new) = set ?m"
  proof (rule set_eqI)
    fix r
    have "row_at (timestamp r) (?m @ df_new) = Some r
            \<longleftrightarrow> row_at (timestamp r) (df_existing @ df_new) = Some r"
    proof (cases "row_at (timestamp r) df_new")
      case None
      then have "row_at (timestamp r) ?m = Some r \<longleftrightarrow> r \<in> set ?m"
        by (simp add: row_at_distinct [OF distinct_index_df_combined])
      with None show ?thesis
        by (simp add: row_at_append in_df_combined)
    next
      case (Some a)
      then show ?thesis by (simp add: row_at_append)
    qed
    then show "r \<in> set (df_combined ?m df_new) \<longleftrightarrow> r \<in> set ?m"
      by (simp add: in_df_combined)
  qed
qed (rule sorted_index_df_combined distinct_index_df_combined)+

text \<open>
  C3 (sort invariant): whatever the order of the two inputs and whatever duplicates
  they hold, the timestamps of the merged table are strictly increasing.
\<close>

theorem sort_invariant: "table_invariant (df_combined df_existing df_new)"
  by (simp add: table_invariant_def strict_sorted_iff sorted_index_df_combined
      distinct_index_df_combined)

text \<open>
  C6 (empty incoming): merging an empty incoming sequence into a table that satisfies
  the invariant returns the table unchanged.
\<close>

theorem empty_incoming:
  assumes "table_invariant df_existing"
  shows "df_combined df_existing [] = df_existing"
proof -
  from assms have s: "sorted (index df_existing)" and d: "distinct (index df_existing)"
    by (simp_all add: table_invariant_def strict_sorted_iff)
  from s have "sort_index df_existing = df_existing"
    by (simp add: sort_index_def index_def sort_key_id_if_sorted)
  with d show ?thesis
    by (simp add: df_combined_def concat_frames_def drop_duplicated_distinct)
qed

theorem empty_incoming_witness:
  "table_invariant [flat 1 (10::int), flat 2 20]
   \<and> df_combined [flat 1 (10::int), flat 2 20] [] = [flat 1 10, flat 2 20]"
proof -
  have i: "table_invariant [flat 1 (10::int), flat 2 20]"
    by (simp add: table_invariant_def index_def timestamp_flat)
  from empty_incoming [OF i] i show ?thesis by simp
qed

section \<open>Properties of the timestamp conversion\<close>







lemma to_candle_2024:
  "to_candle Ms (flat_kline 1704067200000 v) = Some (flat 1704096000000000000 v)"
  by (simp add: flat_kline_def flat_def local_timestamp_def to_datetime_def
      tz_convert_localize_def wrap64_def in_bounds_def asia_singapore_utcoffset_def)

lemma to_candle_2024_next:
  "to_candle Ms (flat_kline 1704070800000 v) = Some (flat 1704099600000000000 v)"
  by (simp add: flat_kline_def flat_def local_timestamp_def to_datetime_def
      tz_convert_localize_def wrap64_def in_bounds_def asia_singapore_utcoffset_def)

lemma to_candle_2024_s:
  "to_candle S (flat_kline 1704067200 v) = Some (flat 1704096000000000000 v)"
  by (simp add: flat_kline_def flat_def local_timestamp_def to_datetime_def
      tz_convert_localize_def wrap64_def in_bounds_def asia_singapore_utcoffset_def)

lemma bybit_one:
  "fetch_from_bybit (\<lambda>_. Json 0 [flat_kline 1704067200000 v]) l =
     ([Trying Bybit, Fetched Bybit 1, DateRange Bybit], Some [flat 1704096000000000000 v])"
  by (simp add: fetch_from_bybit_def to_frame_def to_candle_2024 sort_index_def)

lemma bybit_two:
  "fetch_from_bybit (\<lambda>_. Json 0 [flat_kline 1704070800000 v, flat_kline 1704067200000 w]) l =
     ([Trying Bybit, Fetched Bybit 2, DateRange Bybit],
      Some [flat 1704096000000000000 w, flat 1704099600000000000 v])"
  by (simp add: fetch_from_bybit_def to_frame_def to_candle_2024 to_candle_2024_next
      sort_index_def timestamp_flat)

lemma cryptocompare_one:
  "fetch_from_cryptocompare (\<lambda>_. Json ''Success'' [flat_kline 1704067200 v]) l =
     ([Trying CryptoCompare, Fetched CryptoCompare 1, DateRange CryptoCompare],
      Some [flat 1704096000000000000 v])"
  by (simp add: fetch_from_cryptocompare_def to_frame_def to_candle_2024_s sort_index_def)

lemma bybit_raises: "fetch_from_bybit (\<lambda>_. Raises) l = ([Trying Bybit, Failed Bybit], None)"
  by (simp add: fetch_from_bybit_def)

lemma okx_empty: "fetch_from_okx (\<lambda>_. Json ''0'' []) l = ([Trying OKX, NoData OKX], None)"
  by (simp add: fetch_from_okx_def)

lemma cryptocompare_error:
  "fetch_from_cryptocompare (\<lambda>_. Json ''Error'' []) l =
     ([Trying CryptoCompare, ApiError CryptoCompare], None)"
  by (simp add: fetch_from_cryptocompare_def)




section \<open>Properties of the fallback fetcher\<close>

lemma trying_bybit: "Trying p \<in> set (fst (fetch_from_bybit g l)) \<longleftrightarrow> p = Bybit"
  by (auto simp: fetch_from_bybit_def split: response.splits option.splits)

lemma trying_okx: "Trying p \<in> set (fst (fetch_from_okx g l)) \<longleftrightarrow> p = OKX"
  by (auto simp: fetch_from_okx_def split: response.splits option.splits)

lemma trying_cryptocompare:
  "Trying p \<in> set (fst (fetch_from_cryptocompare g l)) \<longleftrightarrow> p = CryptoCompare"
  by (auto simp: fetch_from_cryptocompare_def split: response.splits option.splits)

lemma try_apis_usable:
  "usable (snd (f limit)) \<Longrightarrow>
   try_apis ((name, f) # rest) limit = (fst (f limit) @ [FetchedFrom name], snd (f limit))"
  by (cases "f limit") simp

lemma try_apis_skip:
  "\<not> usable (snd (f limit)) \<Longrightarrow>
   try_apis ((name, f) # rest) limit =
     (fst (f limit) @ fst (try_apis rest limit), snd (try_apis rest limit))"
  by (cases "f limit"; cases "try_apis rest limit") simp


text \<open>
  C4 (fallback order): the adapters are tried in the order Bybit, OKX, CryptoCompare.
  When the first returns a usable (non-empty) frame, that frame is the result, the
  other two adapters are not called (they print no line, and the result is the same
  whatever their endpoints would answer). When the first fails and the second is
  usable, the second's frame is the result and the third is not called. When the
  first two fail and the third is usable, the third's frame is the result. When none
  is usable the result is \<open>None\<close>.
\<close>

theorem fallback_order:
  fixes net :: "'v network"
  assumes b: "b = fetch_from_bybit (bybit_api net) limit"
    and k: "k = fetch_from_okx (okx_api net) limit"
    and c: "c = fetch_from_cryptocompare (cryptocompare_api net) limit"
  shows "(usable (snd b) \<longrightarrow>
            fetch_recent_klines net limit = (Fetching limit # fst b @ [FetchedFrom Bybit], snd b)
            \<and> Trying OKX \<notin> set (fst (fetch_recent_klines net limit))
            \<and> Trying CryptoCompare \<notin> set (fst (fetch_recent_klines net limit))
            \<and> (\<forall>x y. fetch_recent_klines (net\<lparr>okx_api := x, cryptocompare_api := y\<rparr>) limit
                       = fetch_recent_klines net limit))
       \<and> (\<not> usable (snd b) \<and> usable (snd k) \<longrightarrow>
            fetch_recent_klines net limit
              = (Fetching limit # fst b @ fst k @ [FetchedFrom OKX], snd k)
            \<and> Trying CryptoCompare \<notin> set (fst (fetch_recent_klines net limit)))
       \<and> (\<not> usable (snd b) \<and> \<not> usable (snd k) \<and> usable (snd c) \<longrightarrow>
            fetch_recent_klines net limit
              = (Fetching limit # fst b @ fst k @ fst c @ [FetchedFrom CryptoCompare], snd c))
       \<and> (\<not> usable (snd b) \<and> \<not> usable (snd k) \<and> \<not> usable (snd c) \<longrightarrow>
            fetch_recent_klines net limit
              = (Fetching limit # fst b @ fst k @ fst c @ [AllApisFailed], None))"
proof (intro conjI impI)
  assume u: "usable (snd b)"
  then show 1: "fetch_recent_klines net limit
                  = (Fetching limit # fst b @ [FetchedFrom Bybit], snd b)"
    by (simp add: fetch_recent_klines_def apis_def b try_apis_usable del: try_apis.simps)
  show "Trying OKX \<notin> set (fst (fetch_recent_klines net limit))"
    by (simp add: 1) (simp add: b trying_bybit)
  show "Trying CryptoCompare \<notin> set (fst (fetch_recent_klines net limit))"
    by (simp add: 1) (simp add: b trying_bybit)
  show "\<forall>x y. fetch_recent_klines (net\<lparr>okx_api := x, cryptocompare_api := y\<rparr>) limit
               = fetch_recent_klines net limit"
    using u by (simp add: fetch_recent_klines_def apis_def b try_apis_usable del: try_apis.simps)
next
  assume "\<not> usable (snd b) \<and> usable (snd k)"
  then show 2: "fetch_recent_klines net limit
                  = (Fetching limit # fst b @ fst k @ [FetchedFrom OKX], snd k)"
    by (simp add: fetch_recent_klines_def apis_def b k try_apis_usable try_apis_skip del: try_apis.simps)
  show "Trying CryptoCompare \<notin> set (fst (fetch_recent_klines net limit))"
    by (simp add: 2) (simp add: b k trying_bybit trying_okx)
next
  assume "\<not> usable (snd b) \<and> \<not> usable (snd k) \<and> usable (snd c)"
  then show "fetch_recent_klines net limit
               = (Fetching limit # fst b @ fst k @ fst c @ [FetchedFrom CryptoCompare], snd c)"
    by (simp add: fetch_recent_klines_def apis_def b k c try_apis_usable try_apis_skip del: try_apis.simps)
next
  assume "\<not> usable (snd b) \<and> \<not> usable (snd k) \<and> \<not> usable (snd c)"
  then show "fetch_recent_klines net limit
               = (Fetching limit # fst b @ fst k @ fst c @ [AllApisFailed], None)"
    by (simp add: fetch_recent_klines_def apis_def b k c try_apis_skip del: try_apis.simps(2))
qed

theorem fallback_order_witness:
  "fetch_recent_klines (answering (Json 0 [flat_kline 1704067200000 (5::int)]) Raises Raises) 100
     = ([Fetching 100, Trying Bybit, Fetched Bybit 1, DateRange Bybit, FetchedFrom Bybit],
        Some [flat 1704096000000000000 5])
   \<and> fetch_recent_klines
       (answering Raises (Json ''0'' []) (Json ''Success'' [flat_kline 1704067200 (5::int)])) 100
     = ([Fetching 100, Trying Bybit, Failed Bybit, Trying OKX, NoData OKX,
         Trying CryptoCompare, Fetched CryptoCompare 1, DateRange CryptoCompare,
         FetchedFrom CryptoCompare],
        Some [flat 1704096000000000000 5])
   \<and> fetch_recent_klines
       (answering Raises (Json ''0'' []) (Json ''Error'' []) :: int network) 100
     = ([Fetching 100, Trying Bybit, Failed Bybit, Trying OKX, NoData OKX,
         Trying CryptoCompare, ApiError CryptoCompare, AllApisFailed], None)"
proof (intro conjI)
  let ?n1 = "answering (Json 0 [flat_kline 1704067200000 (5::int)]) Raises Raises"
  from fallback_order [OF refl refl refl, of ?n1 100]
  show "fetch_recent_klines ?n1 100
     = ([Fetching 100, Trying Bybit, Fetched Bybit 1, DateRange Bybit, FetchedFrom Bybit],
        Some [flat 1704096000000000000 5])"
    by (simp add: answering_def bybit_one)
next
  let ?n3 = "answering Raises (Json ''0'' []) (Json ''Success'' [flat_kline 1704067200 (5::int)])"
  from fallback_order [OF refl refl refl, of ?n3 100]
  show "fetch_recent_klines ?n3 100
     = ([Fetching 100, Trying Bybit, Failed Bybit, Trying OKX, NoData OKX,
         Trying CryptoCompare, Fetched CryptoCompare 1, DateRange CryptoCompare,
         FetchedFrom CryptoCompare],
        Some [flat 1704096000000000000 5])"
    by (simp add: answering_def bybit_raises okx_empty cryptocompare_one)
next
  let ?n0 = "answering Raises (Json ''0'' []) (Json ''Error'' []) :: int network"
  from fallback_order [OF refl refl refl, of ?n0 100]
  show "fetch_recent_klines ?n0 100
     = ([Fetching 100, Trying Bybit, Failed Bybit, Trying OKX, NoData OKX,
         Trying CryptoCompare, ApiError CryptoCompare, AllApisFailed], None)"
    by (simp add: answering_def bybit_raises okx_empty cryptocompare_error)
qed


section \<open>Properties of the store and of the orchestrator\<close>

lemma to_csv_finished: "to_csv None df = (File (Csv df), True)"
  by (simp add: to_csv_def)


lemma update_csv_fetched:
  assumes f: "fetch_recent_klines net LIMIT = (p, Some df_new)" and n: "df_new \<noteq> []"
  shows "update_csv net stop (Csv df_existing) =
     (let combined = df_combined df_existing df_new;
          n = new_rows df_existing df_new;
          (written, finished) = to_csv stop combined
      in if \<not> finished then
           \<lparr>logged = [Banner, Starting, Banner] @ [CsvLatest] @ p,
            stored = written, returned = None\<rparr>
         else if n > 0 then
           \<lparr>logged = [Banner, Starting, Banner] @ [CsvLatest] @ p @
              [Updated, TotalRows (length combined), Earliest, Latest, NewRows n],
            stored = written, returned = Some True\<rparr>
         else
           \<lparr>logged = [Banner, Starting, Banner] @ [CsvLatest] @ p @ [Refreshed, Latest],
            stored = written, returned = Some True\<rparr>)"
  using n by (simp add: update_csv_def get_latest_timestamp_from_csv_def f)

lemma update_csv_written:
  assumes f: "fetch_recent_klines net LIMIT = (p, Some df_new)" and n: "df_new \<noteq> []"
  shows "stored (update_csv net None (Csv df_existing))
           = File (Csv (df_combined df_existing df_new))"
    and "returned (update_csv net None (Csv df_existing)) = Some True"
    and "logged (update_csv net None (Csv df_existing)) =
           [Banner, Starting, Banner, CsvLatest] @ p @
           (if new_rows df_existing df_new > 0
            then [Updated, TotalRows (length (df_combined df_existing df_new)), Earliest, Latest,
                  NewRows (new_rows df_existing df_new)]
            else [Refreshed, Latest])"
  by (simp_all add: update_csv_fetched [OF f n] to_csv_finished Let_def)


lemma load_fails_iff:
  "snd (get_latest_timestamp_from_csv f) = (None, None) \<longleftrightarrow> f = Absent \<or> f = Unreadable"
  by (cases f) (simp_all add: get_latest_timestamp_from_csv_def)

lemma update_csv_undated:
  "update_csv net stop Undated =
     (if usable (snd (fetch_recent_klines net LIMIT))
      then \<lparr>logged = [Banner, Starting, Banner, CsvLatest] @ fst (fetch_recent_klines net LIMIT),
            stored = File Undated, returned = None\<rparr>
      else \<lparr>logged = [Banner, Starting, Banner, CsvLatest] @ fst (fetch_recent_klines net LIMIT)
              @ [FetchFailed],
            stored = File Undated, returned = Some False\<rparr>)"
  by (cases "fetch_recent_klines net LIMIT")
     (simp add: update_csv_def get_latest_timestamp_from_csv_def)

lemma length_df_combined:
  "length (df_combined a b) = card (set (index a) \<union> set (index b))"
proof -
  have "length (df_combined a b) = length (index (df_combined a b))"
    by (simp add: index_def)
  also have "\<dots> = card (set (index (df_combined a b)))"
    using distinct_index_df_combined [of a b] by (simp add: distinct_card)
  finally show ?thesis by (simp add: index_df_combined)
qed

lemma card_index_less:
  assumes "\<not> distinct (index a)"
  shows "card (set (index a)) < length a"
proof -
  have "card (set (index a)) \<le> length (index a)" by (rule card_length)
  moreover have "card (set (index a)) \<noteq> length (index a)"
    using assms card_distinct [of "index a"] by blast
  ultimately show ?thesis by (simp add: index_def)
qed

lemma row_at_existing_only:
  assumes "t \<in> set (index a)" and "t \<notin> set (index b)"
  shows "\<exists>r. row_at t a = Some r \<and> filter (\<lambda>c. timestamp c = t) (df_combined a b) = [r]"
proof -
  from assms(1) obtain r where r: "row_at t a = Some r"
    using row_at_None [of t a] by (cases "row_at t a") auto
  then have tr: "timestamp r = t" by (simp add: row_at_Some)
  from assms(2) have "row_at t b = None" by (simp add: row_at_None)
  with r have "row_at t (a @ b) = Some r" by (simp add: row_at_append)
  with tr have "r \<in> set (df_combined a b)" by (simp add: in_df_combined)
  from filter_distinct_index [OF distinct_index_df_combined this] tr r
  show ?thesis by simp
qed

lemma fetch_bybit_one:
  "fetch_recent_klines (answering (Json 0 [flat_kline 1704067200000 v]) k c) l
     = ([Fetching l, Trying Bybit, Fetched Bybit 1, DateRange Bybit, FetchedFrom Bybit],
        Some [flat 1704096000000000000 v])"
  by (simp add: fetch_recent_klines_def apis_def answering_def bybit_one)

lemma fetch_bybit_two:
  "fetch_recent_klines
     (answering (Json 0 [flat_kline 1704070800000 v, flat_kline 1704067200000 w]) k c) l
     = ([Fetching l, Trying Bybit, Fetched Bybit 2, DateRange Bybit, FetchedFrom Bybit],
        Some [flat 1704096000000000000 w, flat 1704099600000000000 v])"
  by (simp add: fetch_recent_klines_def apis_def answering_def bybit_two)

lemma combined_overlap:
  "df_combined [flat 1704092400000000000 (4::int), flat 1704096000000000000 4]
               [flat 1704096000000000000 5, flat 1704099600000000000 5]
     = [flat 1704092400000000000 4, flat 1704096000000000000 5, flat 1704099600000000000 5]"
  by (simp add: df_combined_def concat_frames_def drop_duplicated_Cons drop_duplicated_Nil
      index_def sort_index_def timestamp_flat)

lemma combined_same:
  "df_combined [flat 1704096000000000000 (4::int), flat 1704099600000000000 4]
               [flat 1704096000000000000 5, flat 1704099600000000000 5]
     = [flat 1704096000000000000 5, flat 1704099600000000000 5]"
  by (simp add: df_combined_def concat_frames_def drop_duplicated_Cons drop_duplicated_Nil
      index_def sort_index_def timestamp_flat)

lemma combined_repair:
  "df_combined [flat 1704092400000000000 (1::int), flat 1704092400000000000 2,
                flat 1704096000000000000 3, flat 1704096000000000000 4]
               [flat 1704096000000000000 5]
     = [flat 1704092400000000000 2, flat 1704096000000000000 5]"
  by (simp add: df_combined_def concat_frames_def drop_duplicated_Cons drop_duplicated_Nil
      index_def sort_index_def timestamp_flat)

text \<open>
  C5 (always persist): when the table was loaded and the fetch brought a non-empty
  frame, the run always writes the merged table to the file, whether rows were added
  or not; when the write runs to its end the file holds the merged table and the run
  returns \<open>True\<close> in both cases. The count of new rows is the length of the merged
  table minus the length of the existing one; it only chooses which lines are
  printed.
\<close>

theorem persist_always:
  assumes "fetch_recent_klines net LIMIT = (p, Some df_new)" and "df_new \<noteq> []"
  shows "stored (update_csv net stop (Csv df_existing))
           = fst (to_csv stop (df_combined df_existing df_new))
       \<and> stored (update_csv net None (Csv df_existing))
           = File (Csv (df_combined df_existing df_new))
       \<and> returned (update_csv net None (Csv df_existing)) = Some True
       \<and> logged (update_csv net None (Csv df_existing)) =
           [Banner, Starting, Banner, CsvLatest] @ p @
           (if new_rows df_existing df_new > 0
            then [Updated, TotalRows (length (df_combined df_existing df_new)), Earliest, Latest,
                  NewRows (new_rows df_existing df_new)]
            else [Refreshed, Latest])
       \<and> new_rows df_existing df_new
           = int (length (df_combined df_existing df_new)) - int (length df_existing)"
proof -
  have "stored (update_csv net stop (Csv df_existing))
          = fst (to_csv stop (df_combined df_existing df_new))"
    by (simp add: update_csv_fetched [OF assms] Let_def split: prod.splits)
  with update_csv_written [OF assms, of df_existing] show ?thesis
    by (simp add: new_rows_def)
qed

theorem persist_always_witness:
  "stored (update_csv
      (answering (Json 0 [flat_kline 1704070800000 (5::int), flat_kline 1704067200000 5])
         Raises Raises)
      None (Csv [flat 1704092400000000000 4, flat 1704096000000000000 4]))
     = File (Csv [flat 1704092400000000000 4, flat 1704096000000000000 5,
                  flat 1704099600000000000 5])
   \<and> returned (update_csv
        (answering (Json 0 [flat_kline 1704070800000 (5::int), flat_kline 1704067200000 5])
           Raises Raises)
        None (Csv [flat 1704092400000000000 4, flat 1704096000000000000 4])) = Some True
   \<and> new_rows [flat 1704092400000000000 (4::int), flat 1704096000000000000 4]
               [flat 1704096000000000000 5, flat 1704099600000000000 5] = 1
   \<and> stored (update_csv
        (answering (Json 0 [flat_kline 1704070800000 (5::int), flat_kline 1704067200000 5])
           Raises Raises)
        None (Csv [flat 1704096000000000000 4, flat 1704099600000000000 4]))
     = File (Csv [flat 1704096000000000000 5, flat 1704099600000000000 5])
   \<and> returned (update_csv
        (answering (Json 0 [flat_kline 1704070800000 (5::int), flat_kline 1704067200000 5])
           Raises Raises)
        None (Csv [flat 1704096000000000000 4, flat 1704099600000000000 4])) = Some True
   \<and> new_rows [flat 1704096000000000000 (4::int), flat 1704099600000000000 4]
               [flat 1704096000000000000 5, flat 1704099600000000000 5] = 0"
proof -
  let ?net = "answering (Json 0 [flat_kline 1704070800000 (5::int), flat_kline 1704067200000 5])
                Raises Raises"
  let ?new = "[flat 1704096000000000000 (5::int), flat 1704099600000000000 5]"
  have f: "fetch_recent_klines ?net LIMIT
             = ([Fetching LIMIT, Trying Bybit, Fetched Bybit 2, DateRange Bybit, FetchedFrom Bybit],
                Some ?new)"
    by (rule fetch_bybit_two)
  have n: "?new \<noteq> []" by simp
  from persist_always [OF f n, of None "[flat 1704092400000000000 4, flat 1704096000000000000 4]"]
       persist_always [OF f n, of None "[flat 1704096000000000000 4, flat 1704099600000000000 4]"]
  show ?thesis
    by (simp add: combined_overlap combined_same to_csv_finished)
qed

text \<open>
  C8, as stated, fails: for a missing file and for a file whose reading raises,
  \<open>get_latest_timestamp_from_csv\<close> returns the same pair \<open>(None, None)\<close>.
\<close>

theorem load_failures_same_value:
  "snd (get_latest_timestamp_from_csv Absent) = snd (get_latest_timestamp_from_csv Unreadable)"
  by (simp add: get_latest_timestamp_from_csv_def)

text \<open>
  C8 (load failures, amended): the load fails, by returning \<open>(None, None)\<close>, exactly
  for a missing file and for a file whose reading raises. The two are told apart by
  the line printed (\<open>CsvNotFound\<close> or \<open>CsvReadError\<close>) and by nothing in the value
  returned, and in both cases the run prints that it cannot proceed, calls no
  provider, leaves the file as it is and returns \<open>False\<close>. A malformed file that
  \<open>read_csv\<close> accepts, its \<open>timestamp\<close> cells not being dates, is no load failure:
  it is loaded like a good table and the providers are called. When the fetch brings
  nothing the run returns \<open>False\<close>; when it brings a usable frame the run raises in
  the sort, writes nothing and does not return.
\<close>

theorem load_failures_logged:
  "(snd (get_latest_timestamp_from_csv f) = (None, None)) = (f = Absent \<or> f = Unreadable)
   \<and> fst (get_latest_timestamp_from_csv Absent) = [CsvNotFound]
   \<and> fst (get_latest_timestamp_from_csv Unreadable) = [CsvReadError]
   \<and> update_csv net stop Absent =
       \<lparr>logged = [Banner, Starting, Banner, CsvNotFound, CannotProceed],
        stored = File Absent, returned = Some False\<rparr>
   \<and> update_csv net stop Unreadable =
       \<lparr>logged = [Banner, Starting, Banner, CsvReadError, CannotProceed],
        stored = File Unreadable, returned = Some False\<rparr>
   \<and> get_latest_timestamp_from_csv Undated = ([CsvLatest], Some Not_a_date, Some Unparsed)
   \<and> logged (update_csv net stop Undated) =
       [Banner, Starting, Banner, CsvLatest] @ fst (fetch_recent_klines net LIMIT) @
       (if usable (snd (fetch_recent_klines net LIMIT)) then [] else [FetchFailed])
   \<and> stored (update_csv net stop Undated) = File Undated
   \<and> returned (update_csv net stop Undated) =
       (if usable (snd (fetch_recent_klines net LIMIT)) then None else Some False)"
proof (intro conjI)
  show "(snd (get_latest_timestamp_from_csv f) = (None, None)) = (f = Absent \<or> f = Unreadable)"
    by (rule load_fails_iff)
  show "update_csv net stop Absent =
       \<lparr>logged = [Banner, Starting, Banner, CsvNotFound, CannotProceed],
        stored = File Absent, returned = Some False\<rparr>"
    by (simp add: update_csv_def get_latest_timestamp_from_csv_def)
  show "update_csv net stop Unreadable =
       \<lparr>logged = [Banner, Starting, Banner, CsvReadError, CannotProceed],
        stored = File Unreadable, returned = Some False\<rparr>"
    by (simp add: update_csv_def get_latest_timestamp_from_csv_def)
qed (simp_all add: get_latest_timestamp_from_csv_def update_csv_undated)

text \<open>
  C10 (merge repairs a table with duplicates): when the existing table holds a
  timestamp more than once, the merged table still satisfies the invariant; a
  timestamp of the existing table that the incoming frame does not hold keeps exactly
  its last existing row; when the incoming frame brings no timestamp that the
  existing table lacks, the count of new rows is negative; and the run stores the
  merged table and returns \<open>True\<close> all the same.
\<close>

theorem merge_repairs:
  assumes dup: "\<not> distinct (index df_existing)"
    and f: "fetch_recent_klines net LIMIT = (p, Some df_new)" and n: "df_new \<noteq> []"
  shows "table_invariant (df_combined df_existing df_new)
       \<and> (\<forall>t \<in> set (index df_existing) - set (index df_new).
             \<exists>r. row_at t df_existing = Some r
                \<and> filter (\<lambda>c. timestamp c = t) (df_combined df_existing df_new) = [r])
       \<and> (set (index df_new) \<subseteq> set (index df_existing) \<longrightarrow> new_rows df_existing df_new < 0)
       \<and> stored (update_csv net None (Csv df_existing))
           = File (Csv (df_combined df_existing df_new))
       \<and> returned (update_csv net None (Csv df_existing)) = Some True"
proof (intro conjI ballI impI)
  show "table_invariant (df_combined df_existing df_new)"
    by (simp add: table_invariant_def strict_sorted_iff sorted_index_df_combined
        distinct_index_df_combined)
next
  fix t assume "t \<in> set (index df_existing) - set (index df_new)"
  then show "\<exists>r. row_at t df_existing = Some r
                \<and> filter (\<lambda>c. timestamp c = t) (df_combined df_existing df_new) = [r]"
    by (simp add: row_at_existing_only)
next
  assume "set (index df_new) \<subseteq> set (index df_existing)"
  then have "set (index df_existing) \<union> set (index df_new) = set (index df_existing)"
    by auto
  then have "length (df_combined df_existing df_new) = card (set (index df_existing))"
    by (simp add: length_df_combined)
  with card_index_less [OF dup] show "new_rows df_existing df_new < 0"
    by (simp add: new_rows_def)
next
  show "stored (update_csv net None (Csv df_existing))
          = File (Csv (df_combined df_existing df_new))"
    by (rule update_csv_written [OF f n])
  show "returned (update_csv net None (Csv df_existing)) = Some True"
    by (rule update_csv_written [OF f n])
qed

theorem merge_repairs_witness:
  "\<not> distinct (index [flat 1704092400000000000 (1::int), flat 1704092400000000000 2,
                       flat 1704096000000000000 3, flat 1704096000000000000 4])
   \<and> table_invariant [flat 1704092400000000000 (2::int), flat 1704096000000000000 5]
   \<and> stored (update_csv (answering (Json 0 [flat_kline 1704067200000 (5::int)]) Raises Raises)
        None (Csv [flat 1704092400000000000 1, flat 1704092400000000000 2,
                   flat 1704096000000000000 3, flat 1704096000000000000 4]))
     = File (Csv [flat 1704092400000000000 2, flat 1704096000000000000 5])
   \<and> returned (update_csv (answering (Json 0 [flat_kline 1704067200000 (5::int)]) Raises Raises)
        None (Csv [flat 1704092400000000000 1, flat 1704092400000000000 2,
                   flat 1704096000000000000 3, flat 1704096000000000000 4])) = Some True
   \<and> new_rows [flat 1704092400000000000 (1::int), flat 1704092400000000000 2,
               flat 1704096000000000000 3, flat 1704096000000000000 4]
              [flat 1704096000000000000 5] < 0"
proof -
  let ?net = "answering (Json 0 [flat_kline 1704067200000 (5::int)]) Raises Raises"
  let ?old = "[flat 1704092400000000000 (1::int), flat 1704092400000000000 2,
               flat 1704096000000000000 3, flat 1704096000000000000 4]"
  let ?new = "[flat 1704096000000000000 (5::int)]"
  have f: "fetch_recent_klines ?net LIMIT
             = ([Fetching LIMIT, Trying Bybit, Fetched Bybit 1, DateRange Bybit, FetchedFrom Bybit],
                Some ?new)"
    by (rule fetch_bybit_one)
  have n: "?new \<noteq> []" by simp
  have d: "\<not> distinct (index ?old)"
    by (simp add: index_def timestamp_flat)
  have s: "set (index ?new) \<subseteq> set (index ?old)"
    by (simp add: index_def timestamp_flat)
  from merge_repairs [OF d f n] s d show ?thesis
    by (simp add: combined_repair)
qed




end
